theory Spec2Isabelle
  imports Main "HOL-Library.Word"
begin

section \<open>The cache server of server/server.go\<close>

text \<open>
  The development embeds \<^verbatim>\<open>server/server.go\<close>: the command dispatcher
  \<^verbatim>\<open>handlecommand\<close> with its five handlers, and the event loop of \<^verbatim>\<open>Start\<close>.
  Byte slices and Go strings are \<^typ>\<open>string\<close> (lists of 8-bit characters). Everything the
  operating system decides (clock readings, the results of socket calls, of the
  multiplexer and of reads and writes) is an explicit input of the function that asks
  for it.
\<close>

subsection \<open>Library functions used by the dispatcher\<close>

text \<open>
  \<^verbatim>\<open>strings.Fields\<close> splits around runs of white space as \<^verbatim>\<open>unicode.IsSpace\<close> defines
  it. \<open>space_width\<close> gives the number of bytes of the white-space rune that starts the
  given byte string, or 0 when none does: the six ASCII spaces, and the UTF-8 encodings
  of U+0085, U+00A0, U+1680, U+2000 to U+200A, U+2028, U+2029, U+202F, U+205F and U+3000.
  Every such encoding starts with a byte that is no UTF-8 continuation byte, so scanning
  byte by byte meets them exactly where Go's rune decoder does.
\<close>

definition asciiSpace :: "char \<Rightarrow> bool" where
  "asciiSpace c = (c = CHR 0x09 \<or> c = CHR 0x0A \<or> c = CHR 0x0B \<or> c = CHR 0x0C
                   \<or> c = CHR 0x0D \<or> c = CHR 0x20)"

fun space_width :: "string \<Rightarrow> nat" where
  "space_width [] = 0"
| "space_width (c # cs) =
     (if asciiSpace c then 1
      else if c = CHR 0xC2 then
        (case cs of d # _ \<Rightarrow> if d = CHR 0x85 \<or> d = CHR 0xA0 then 2 else 0 | _ \<Rightarrow> 0)
      else if c = CHR 0xE1 then
        (case cs of d # e # _ \<Rightarrow> if d = CHR 0x9A \<and> e = CHR 0x80 then 3 else 0 | _ \<Rightarrow> 0)
      else if c = CHR 0xE2 then
        (case cs of d # e # _ \<Rightarrow>
           if d = CHR 0x80 \<and> (of_char e :: nat) \<in> {0x80..0x8A} \<union> {0xA8, 0xA9, 0xAF} then 3
           else if d = CHR 0x81 \<and> e = CHR 0x9F then 3
           else 0
         | _ \<Rightarrow> 0)
      else if c = CHR 0xE3 then
        (case cs of d # e # _ \<Rightarrow> if d = CHR 0x80 \<and> e = CHR 0x80 then 3 else 0 | _ \<Rightarrow> 0)
      else 0)"

text \<open>
  \<open>flush\<close> closes the field collected so far; \<open>fields_from tok s\<close> scans \<open>s\<close> with
  the bytes \<open>tok\<close> of the field under way.
\<close>

definition flush :: "string \<Rightarrow> string list" where
  "flush tok = (if tok = [] then [] else [tok])"

function fields_from :: "string \<Rightarrow> string \<Rightarrow> string list" where
  "fields_from tok [] = flush tok"
| "fields_from tok (c # cs) =
     (if space_width (c # cs) = 0 then fields_from (tok @ [c]) cs
      else flush tok @ fields_from [] (drop (space_width (c # cs) - 1) cs))"
  by pat_completeness auto
termination
  by (relation "measure (\<lambda>(tok, s). length s)") auto

definition Fields :: "string \<Rightarrow> string list" where
  "Fields s = fields_from [] s"

text \<open>
  \<^verbatim>\<open>strconv.Atoi\<close> on a 64-bit platform: an optional sign, then at least one decimal
  digit and nothing else, and a value that fits \<^verbatim>\<open>int\<close>; every other string is an error
  (\<open>None\<close>). Its fast path (fewer than 19 bytes) and \<^verbatim>\<open>ParseInt(s, 10, 0)\<close> agree on
  this.
\<close>

definition digit_of :: "char \<Rightarrow> nat option" where
  "digit_of ch = (if (48::nat) \<le> of_char ch \<and> (of_char ch :: nat) \<le> 57
                  then Some (of_char ch - 48) else None)"

fun digits_value :: "nat \<Rightarrow> string \<Rightarrow> nat option" where
  "digits_value n [] = Some n"
| "digits_value n (ch # s) =
     (case digit_of ch of None \<Rightarrow> None | Some d \<Rightarrow> digits_value (n * 10 + d) s)"

definition Atoi :: "string \<Rightarrow> int option" where
  "Atoi s =
     (if s = [] then None
      else let neg = (hd s = CHR ''-'');
               body = (if hd s = CHR ''-'' \<or> hd s = CHR ''+'' then tl s else s)
           in if body = [] then None
              else case digits_value 0 body of
                     None \<Rightarrow> None
                   | Some un \<Rightarrow>
                       if \<not> neg \<and> un \<ge> 2 ^ 63 then None
                       else if neg \<and> un > 2 ^ 63 then None
                       else Some (if neg then - int un else int un))"

subsection \<open>The cache package\<close>

text \<open>
  Modelled from the spec: the package \<^verbatim>\<open>cache\<close> (\<^verbatim>\<open>Set\<close>, \<^verbatim>\<open>SetWithTTL\<close>, \<^verbatim>\<open>Get\<close>,
  \<^verbatim>\<open>Delete\<close>, \<^verbatim>\<open>Has\<close>, \<^verbatim>\<open>DeleteExpiredKeys\<close>) is imported by the server and its source is
  not at hand. The definitions follow section 4.2 of the specification: an entry is a
  value with an optional absolute expiry, and it is expired iff \<open>now \<ge> expiresAt\<close>. The
  clock reading each operation takes is its argument \<open>now\<close>.
\<close>

record entry =
  val :: string
  expiresAt :: "int option"

type_synonym cache = "string \<rightharpoonup> entry"

datatype cache_error = NotFound string | InvalidArgument int

definition expired :: "int \<Rightarrow> entry \<Rightarrow> bool" where
  "expired now e = (case expiresAt e of None \<Rightarrow> False | Some t \<Rightarrow> now \<ge> t)"

text \<open>Modelled from the spec: \<^verbatim>\<open>cache.Set\<close>, an unconditional upsert that clears the expiry.\<close>

definition cache_Set :: "cache \<Rightarrow> string \<Rightarrow> string \<Rightarrow> cache_error option \<times> cache" where
  "cache_Set c key v = (None, c(key \<mapsto> \<lparr>val = v, expiresAt = None\<rparr>))"

text \<open>
  Modelled from the spec: \<^verbatim>\<open>cache.SetWithTTL\<close>, which fails with \<open>InvalidArgument\<close> on a
  negative TTL and otherwise upserts with expiry \<open>now + ttl\<close>.
\<close>

definition cache_SetWithTTL ::
  "cache \<Rightarrow> int \<Rightarrow> string \<Rightarrow> string \<Rightarrow> int \<Rightarrow> cache_error option \<times> cache" where
  "cache_SetWithTTL c now key v ttl =
     (if ttl < 0 then (Some (InvalidArgument ttl), c)
      else (None, c(key \<mapsto> \<lparr>val = v, expiresAt = Some (now + ttl)\<rparr>)))"

text \<open>
  Modelled from the spec: \<^verbatim>\<open>cache.Get\<close>, the value of a present, unexpired key; an
  expired entry met here is evicted and reported as absent.
\<close>

definition cache_Get :: "cache \<Rightarrow> int \<Rightarrow> string \<Rightarrow> (cache_error + string) \<times> cache" where
  "cache_Get c now key =
     (case c key of
        None \<Rightarrow> (Inl (NotFound key), c)
      | Some e \<Rightarrow> if expired now e then (Inl (NotFound key), c(key := None))
                  else (Inr (val e), c))"

text \<open>Modelled from the spec: \<^verbatim>\<open>cache.Delete\<close>, which removes a present key.\<close>

definition cache_Delete :: "cache \<Rightarrow> string \<Rightarrow> cache_error option \<times> cache" where
  "cache_Delete c key =
     (case c key of
        None \<Rightarrow> (Some (NotFound key), c)
      | Some e \<Rightarrow> (None, c(key := None)))"

text \<open>Modelled from the spec: \<^verbatim>\<open>cache.Has\<close>, with the passive expiry of \<^verbatim>\<open>Get\<close>.\<close>

definition cache_Has :: "cache \<Rightarrow> int \<Rightarrow> string \<Rightarrow> bool \<times> cache" where
  "cache_Has c now key =
     (case c key of
        None \<Rightarrow> (False, c)
      | Some e \<Rightarrow> if expired now e then (False, c(key := None)) else (True, c))"

text \<open>Modelled from the spec: \<^verbatim>\<open>cache.DeleteExpiredKeys\<close>, the sweep of every expired entry.\<close>

definition cache_DeleteExpiredKeys :: "cache \<Rightarrow> int \<Rightarrow> cache" where
  "cache_DeleteExpiredKeys c now =
     (\<lambda>k. case c k of None \<Rightarrow> None | Some e \<Rightarrow> if expired now e then None else Some e)"

subsection \<open>Command dispatch\<close>

text \<open>
  A Go \<^verbatim>\<open>error\<close> returned by the dispatcher is either one the server makes itself with
  \<^verbatim>\<open>errors.New\<close> or \<^verbatim>\<open>fmt.Errorf\<close>, known by its text, or one handed up from the cache.
  The handlers receive the cache and the clock reading of the cache operation, and return
  their Go result together with the cache as the operation left it.
\<close>

datatype error = ErrorString string | CacheError cache_error

type_synonym reply = "(error + string) \<times> cache"

definition handleSet :: "cache \<Rightarrow> string \<Rightarrow> string \<Rightarrow> reply" where
  "handleSet c key v =
     (case cache_Set c key v of
        (Some err, c') \<Rightarrow> (Inl (CacheError err), c')
      | (None, c') \<Rightarrow> (Inr ''Success'', c'))"

definition handleSetWithTTL :: "cache \<Rightarrow> int \<Rightarrow> string \<Rightarrow> string \<Rightarrow> string \<Rightarrow> reply" where
  "handleSetWithTTL c now key v ttl =
     (case Atoi ttl of
        None \<Rightarrow> (Inl (ErrorString ''invalid TTl''), c)
      | Some parsedTTL \<Rightarrow>
          (case cache_SetWithTTL c now key v parsedTTL of
             (Some err, c') \<Rightarrow> (Inl (CacheError err), c')
           | (None, c') \<Rightarrow> (Inr ''Success'', c')))"

definition handleGet :: "cache \<Rightarrow> int \<Rightarrow> string \<Rightarrow> reply" where
  "handleGet c now key =
     (case cache_Get c now key of
        (Inl err, c') \<Rightarrow> (Inl (CacheError err), c')
      | (Inr v, c') \<Rightarrow> (Inr v, c'))"

definition handleDel :: "cache \<Rightarrow> string \<Rightarrow> reply" where
  "handleDel c key =
     (case cache_Delete c key of
        (Some err, c') \<Rightarrow> (Inl (CacheError err), c')
      | (None, c') \<Rightarrow> (Inr ''Success'', c'))"

definition handleHas :: "cache \<Rightarrow> int \<Rightarrow> string \<Rightarrow> reply" where
  "handleHas c now key =
     (case cache_Has c now key of
        (isPresent, c') \<Rightarrow> if \<not> isPresent then (Inr ''No'', c') else (Inr ''Yes'', c'))"

text \<open>
  \<open>dispatch\<close> is the body of \<^verbatim>\<open>handlecommand\<close> after the split into \<open>parts\<close>; the
  patterns bind \<open>parts[0]\<close> and \<open>parts[1]\<close>, which exist once \<open>len_cmd \<ge> 2\<close>.
\<close>

definition dispatch :: "cache \<Rightarrow> int \<Rightarrow> string list \<Rightarrow> reply" where
  "dispatch c now parts =
     (case parts of
        cmd # key # rest \<Rightarrow>
          if cmd = ''SET'' then
            (if length parts = 3 then handleSet c key (parts ! 2)
             else if length parts = 4 then handleSetWithTTL c now key (parts ! 2) (parts ! 3)
             else (Inl (ErrorString ''SET message must atleast have key and value''), c))
          else if cmd = ''GET'' then handleGet c now key
          else if cmd = ''DEL'' then handleDel c key
          else if cmd = ''HAS'' then handleHas c now key
          else (Inl (ErrorString (''unknown Command '' @ cmd)), c)
      | _ \<Rightarrow> (Inl (ErrorString ''message must atleast have command and key''), c))"

definition handlecommand :: "cache \<Rightarrow> int \<Rightarrow> string \<Rightarrow> reply" where
  "handlecommand c now rawCmd = dispatch c now (Fields rawCmd)"

subsection \<open>The server and what it holds\<close>

text \<open>
  \<open>Server\<close> is the struct of the source with \<open>ServerOpts\<close> embedded; an instant and a
  duration are integers (nanoseconds), and \<open>con_clients\<close> is a 64-bit \<^verbatim>\<open>uint\<close>, so its
  decrement wraps at zero. A \<open>process\<close> is the server together with what the operating
  system holds for it: the open handles, the handles the multiplexer monitors, and, as
  history, every byte string handed to \<^verbatim>\<open>conn.Write\<close> and the number of calls of
  \<^verbatim>\<open>DeleteExpiredKeys\<close>. Logging changes none of this and is left out.
\<close>

record Server =
  Host :: string
  Port :: int
  CronFrequency :: int
  lastCronExecTime :: int
  cache :: cache
  con_clients :: "64 word"

record process = Server +
  open_fds :: "int set"
  subscribed :: "int set"
  writes :: "(int \<times> string) list"
  sweeps :: nat

datatype os_error = Errno nat | EOF

text \<open>
  \<^verbatim>\<open>err.Error()\<close>. The text of an error of the cache package is fixed there, so it is
  the argument \<open>errtext\<close>.
\<close>

fun Error :: "(cache_error \<Rightarrow> string) \<Rightarrow> error \<Rightarrow> string" where
  "Error errtext (ErrorString s) = s"
| "Error errtext (CacheError e) = errtext e"

text \<open>
  Modelled from the spec: \<^verbatim>\<open>fDconn.Close\<close> and \<^verbatim>\<open>multiplexer.Close\<close>, whose sources are
  not at hand. Closing a connection closes its handle, which also ends its monitoring;
  closing the multiplexer ends all monitoring.
\<close>

definition conn_Close :: "int \<Rightarrow> process \<Rightarrow> process" where
  "conn_Close fd p = p\<lparr>open_fds := open_fds p - {fd}, subscribed := subscribed p - {fd}\<rparr>"

definition multiplexer_Close :: "process \<Rightarrow> process" where
  "multiplexer_Close p = p\<lparr>subscribed := {}\<rparr>"

text \<open>
  An event reported by \<^verbatim>\<open>Poll\<close> comes with the results the operating system will give
  while it is served: of \<^verbatim>\<open>Accept\<close> and \<^verbatim>\<open>Subscribe\<close> when it is the listening handle, and
  otherwise of \<^verbatim>\<open>ReadBytes('\n')\<close>, of the cache's clock and of \<^verbatim>\<open>Write\<close>. An absent error
  (\<open>None\<close>) is Go's \<^verbatim>\<open>nil\<close>.
\<close>

record Event =
  Fd :: int
  Op :: nat

record io =
  accept_result :: "os_error + int"
  subscribe_result :: "os_error option"
  read_result :: "os_error + string"
  cache_clock :: int
  write_result :: "os_error option"

datatype step = Continue process | Return os_error process

text \<open>Lines 106 to 122: the listening handle is ready.\<close>

definition on_listener :: "io \<Rightarrow> process \<Rightarrow> step" where
  "on_listener r p =
     (case accept_result r of
        Inl err \<Rightarrow> Continue p
      | Inr fd \<Rightarrow>
          let p1 = p\<lparr>con_clients := con_clients p + 1, open_fds := insert fd (open_fds p)\<rparr>
          in case subscribe_result r of
               Some err \<Rightarrow> Return err p1
             | None \<Rightarrow> Continue (p1\<lparr>subscribed := insert fd (subscribed p1)\<rparr>))"

text \<open>Lines 136 to 139: the payload is the reply, or the text of the error.\<close>

definition payload :: "(cache_error \<Rightarrow> string) \<Rightarrow> error + string \<Rightarrow> string" where
  "payload errtext r = (case r of Inl err \<Rightarrow> Error errtext err | Inr resp \<Rightarrow> resp)"

text \<open>Lines 125 to 146: a client handle is ready.\<close>

definition on_client :: "(cache_error \<Rightarrow> string) \<Rightarrow> int \<Rightarrow> io \<Rightarrow> process \<Rightarrow> step" where
  "on_client errtext fd r p =
     (case read_result r of
        Inl err \<Rightarrow> Continue ((conn_Close fd p)\<lparr>con_clients := con_clients p - 1\<rparr>)
      | Inr cmd \<Rightarrow>
          (case handlecommand (cache p) (cache_clock r) cmd of
             (res, c') \<Rightarrow>
               let p1 = p\<lparr>cache := c',
                          writes := writes p @ [(fd, payload errtext res @ [CHR 0x0A])]\<rparr>
               in case write_result r of
                    Some err \<Rightarrow> Continue ((conn_Close fd p1)\<lparr>con_clients := con_clients p1 - 1\<rparr>)
                  | None \<Rightarrow> Continue p1))"

text \<open>Lines 102 to 148: the events of one poll, in the order reported.\<close>

fun serve :: "(cache_error \<Rightarrow> string) \<Rightarrow> int \<Rightarrow> (Event \<times> io) list \<Rightarrow> process \<Rightarrow> step" where
  "serve errtext serverFD [] p = Continue p"
| "serve errtext serverFD ((event, r) # events) p =
     (case (if Fd event = serverFD then on_listener r p
            else on_client errtext (Fd event) r p) of
        Return err p' \<Rightarrow> Return err p'
      | Continue p' \<Rightarrow> serve errtext serverFD events p')"

text \<open>
  One turn of the loop reads the clock for the test of line 91, and when the test
  holds, the cache reads its own clock for the sweep and line 93 reads the clock again.
  Then comes the result of \<^verbatim>\<open>Poll\<close>. \<^verbatim>\<open>a.After(b)\<close> is \<open>a > b\<close>.
\<close>

record tick =
  now_check :: int
  now_sweep :: int
  now_stamp :: int
  poll_result :: "os_error + (Event \<times> io) list"

definition cron :: "tick \<Rightarrow> process \<Rightarrow> process" where
  "cron t p =
     (if now_check t > lastCronExecTime p + CronFrequency p
      then p\<lparr>cache := cache_DeleteExpiredKeys (cache p) (now_sweep t),
             sweeps := sweeps p + 1,
             lastCronExecTime := now_stamp t\<rparr>
      else p)"

definition iteration :: "(cache_error \<Rightarrow> string) \<Rightarrow> int \<Rightarrow> tick \<Rightarrow> process \<Rightarrow> step" where
  "iteration errtext serverFD t p =
     (let p1 = cron t p
      in case poll_result t of
           Inl err \<Rightarrow> Continue p1
         | Inr events \<Rightarrow> serve errtext serverFD events p1)"

text \<open>
  How a run of \<^verbatim>\<open>Start\<close> stands: it has returned an error, \<^verbatim>\<open>log.Fatal\<close> has ended the
  process (nothing is returned and no deferred call runs), it has panicked, or it is
  still in its loop, waiting for what comes next. Each comes with the process as left.
\<close>

datatype outcome =
  Returned os_error process
| Fatal os_error process
| Panicked process
| Running process

text \<open>
  The deferred calls of \<^verbatim>\<open>Start\<close>, last one first: \<^verbatim>\<open>multiplexer.Close()\<close>, then
  \<^verbatim>\<open>syscall.Close(serverFD)\<close>.
\<close>

definition syscall_Close :: "int \<Rightarrow> process \<Rightarrow> process" where
  "syscall_Close fd p = p\<lparr>open_fds := open_fds p - {fd}, subscribed := subscribed p - {fd}\<rparr>"

definition deferred :: "int \<Rightarrow> process \<Rightarrow> process" where
  "deferred serverFD p = syscall_Close serverFD (multiplexer_Close p)"

text \<open>
  The loop of lines 90 to 149 never ends by itself; \<open>main_loop\<close> runs it on the turns
  the environment has provided so far.
\<close>

fun main_loop :: "(cache_error \<Rightarrow> string) \<Rightarrow> int \<Rightarrow> tick list \<Rightarrow> process \<Rightarrow> outcome" where
  "main_loop errtext serverFD [] p = Running p"
| "main_loop errtext serverFD (t # ts) p =
     (case iteration errtext serverFD t p of
        Return err p' \<Rightarrow> Returned err (deferred serverFD p')
      | Continue p' \<Rightarrow> main_loop errtext serverFD ts p')"

text \<open>
  What the operating system answers during the set-up of lines 44 to 88.
  \<open>host_parses\<close> tells whether \<^verbatim>\<open>net.ParseIP\<close> gave an address; indexing its \<^verbatim>\<open>nil\<close>
  result panics.
\<close>

record boot =
  socket_result :: "os_error + int"
  setnonblock_result :: "os_error option"
  host_parses :: bool
  bind_result :: "os_error option"
  listen_result :: "os_error option"
  new_result :: "os_error option"
  subscribe_server_result :: "os_error option"

definition Start ::
  "(cache_error \<Rightarrow> string) \<Rightarrow> boot \<Rightarrow> tick list \<Rightarrow> process \<Rightarrow> outcome" where
  "Start errtext b ts p =
     (case socket_result b of
        Inl err \<Rightarrow> Returned err p
      | Inr serverFD \<Rightarrow>
          let p1 = p\<lparr>open_fds := insert serverFD (open_fds p)\<rparr>
          in case setnonblock_result b of
               Some err \<Rightarrow> Returned err (syscall_Close serverFD p1)
             | None \<Rightarrow>
                 if \<not> host_parses b then Panicked (syscall_Close serverFD p1)
                 else case bind_result b of
                   Some err \<Rightarrow> Returned err (syscall_Close serverFD p1)
                 | None \<Rightarrow>
                     (case listen_result b of
                        Some err \<Rightarrow> Returned err (syscall_Close serverFD p1)
                      | None \<Rightarrow>
                          (case new_result b of
                             Some err \<Rightarrow> Fatal err p1
                           | None \<Rightarrow>
                               (case subscribe_server_result b of
                                  Some err \<Rightarrow> Returned err (deferred serverFD p1)
                                | None \<Rightarrow>
                                    main_loop errtext serverFD ts
                                      (p1\<lparr>subscribed := insert serverFD (subscribed p1)\<rparr>)))))"

subsection \<open>Notions of the specification\<close>

text \<open>
  The integer a token writes: decimal digits after an optional sign, of any size.
  A TTL token is acceptable to the specification when it writes an integer that is not
  negative.
\<close>

definition token_value :: "string \<Rightarrow> int option" where
  "token_value s =
     (case s of
        [] \<Rightarrow> None
      | c # cs \<Rightarrow>
          if c = CHR ''-'' then
            (if cs = [] then None else map_option (\<lambda>n. - int n) (digits_value 0 cs))
          else if c = CHR ''+'' then
            (if cs = [] then None else map_option int (digits_value 0 cs))
          else map_option int (digits_value 0 s))"

definition nonneg_integer :: "string \<Rightarrow> bool" where
  "nonneg_integer s = (case token_value s of None \<Rightarrow> False | Some n \<Rightarrow> 0 \<le> n)"

text \<open>The process a step of the loop leaves behind, whether the loop goes on or not.\<close>

fun state_of :: "step \<Rightarrow> process" where
  "state_of (Continue p) = p"
| "state_of (Return err p) = p"

subsection \<open>Concrete inputs\<close>

text \<open>
  A server just constructed by \<^verbatim>\<open>NewServer\<close> with a sweep interval of 5, holding nothing
  yet; the error texts of a cache; the results of an event on which every call succeeds.
\<close>

definition fresh :: process where
  "fresh = \<lparr>Host = ''127.0.0.1'', Port = 7000, CronFrequency = 5, lastCronExecTime = 0,
            cache = Map.empty, con_clients = 0,
            open_fds = {}, subscribed = {}, writes = [], sweeps = 0\<rparr>"

fun sample_text :: "cache_error \<Rightarrow> string" where
  "sample_text (NotFound k) = ''key not found''"
| "sample_text (InvalidArgument n) = ''invalid argument''"

definition calm :: io where
  "calm = \<lparr>accept_result = Inr 7, subscribe_result = None, read_result = Inr ''GET k\<newline>'',
           cache_clock = 0, write_result = None\<rparr>"

definition quiet :: tick where
  "quiet = \<lparr>now_check = 1, now_sweep = 1, now_stamp = 1, poll_result = Inl (Errno 4)\<rparr>"

definition on_the_dot :: tick where
  "on_the_dot = \<lparr>now_check = 5, now_sweep = 5, now_stamp = 6, poll_result = Inl (Errno 4)\<rparr>"

definition overdue :: tick where
  "overdue = \<lparr>now_check = 6, now_sweep = 7, now_stamp = 8, poll_result = Inr []\<rparr>"

definition booting :: boot where
  "booting = \<lparr>socket_result = Inr 3, setnonblock_result = None, host_parses = True,
              bind_result = None, listen_result = None, new_result = None,
              subscribe_server_result = None\<rparr>"

section \<open>Properties of the dispatcher\<close>

subsection \<open>Auxiliary facts\<close>

lemmas eval_fields = Fields_def flush_def asciiSpace_def

lemma dispatch_short:
  "length parts < 2 \<Longrightarrow>
   dispatch c now parts = (Inl (ErrorString ''message must atleast have command and key''), c)"
  by (cases parts; cases "tl parts") (auto simp: dispatch_def)

lemma dispatch_long:
  "dispatch c now (cmd # key # rest) =
     (if cmd = ''SET'' then
        (if length rest = 1 then handleSet c key (hd rest)
         else if length rest = 2 then handleSetWithTTL c now key (hd rest) (rest ! 1)
         else (Inl (ErrorString ''SET message must atleast have key and value''), c))
      else if cmd = ''GET'' then handleGet c now key
      else if cmd = ''DEL'' then handleDel c key
      else if cmd = ''HAS'' then handleHas c now key
      else (Inl (ErrorString (''unknown Command '' @ cmd)), c))"
  by (cases rest) (auto simp: dispatch_def)

lemma two_tokens: "2 \<le> length parts \<Longrightarrow> \<exists>cmd key rest. parts = cmd # key # rest"
  by (cases parts; cases "tl parts") auto

lemma Fields_PING: "Fields ''PING\<newline>'' = [''PING'']"
  by (simp add: eval_fields)

lemma Fields_SET_a: "Fields ''SET a\<newline>'' = [''SET'', ''a'']"
  by (simp add: eval_fields)

lemma Fields_SET_a_b: "Fields ''SET a b\<newline>'' = [''SET'', ''a'', ''b'']"
  by (simp add: eval_fields)

lemma Fields_SET_5: "Fields ''SET a b c d\<newline>'' = [''SET'', ''a'', ''b'', ''c'', ''d'']"
  by (simp add: eval_fields)

lemma Fields_PUT: "Fields ''PUT a b\<newline>'' = [''PUT'', ''a'', ''b'']"
  by (simp add: eval_fields)

lemma Fields_GET_k: "Fields ''GET k\<newline>'' = [''GET'', ''k'']"
  by (simp add: eval_fields)

lemma Fields_GET_k_extra: "Fields ''GET k extra\<newline>'' = [''GET'', ''k'', ''extra'']"
  by (simp add: eval_fields)

lemma Fields_SET_negative: "Fields ''SET a b -5\<newline>'' = [''SET'', ''a'', ''b'', ''-5'']"
  by (simp add: eval_fields)

lemma Fields_SET_soon: "Fields ''SET a b soon\<newline>'' = [''SET'', ''a'', ''b'', ''soon'']"
  by (simp add: eval_fields)

lemma token_value_negative: "token_value ''-5'' = Some (- 5)"
  by (simp add: token_value_def digit_of_def)

lemma token_value_soon: "token_value ''soon'' = None"
  by (simp add: token_value_def digit_of_def)

text \<open>Whatever \<^verbatim>\<open>Atoi\<close> accepts is the integer the token writes, and conversely within 64 bits.\<close>

lemma Atoi_token_value: "Atoi s = Some n \<Longrightarrow> token_value s = Some n"
  by (cases s) (auto simp: Atoi_def token_value_def Let_def split: option.splits if_splits)

lemma token_value_Atoi:
  "token_value s = Some n \<Longrightarrow> - (2 ^ 63) \<le> n \<Longrightarrow> n < 2 ^ 63 \<Longrightarrow> Atoi s = Some n"
  by (cases s) (auto simp: Atoi_def token_value_def Let_def split: option.splits if_splits)

lemma handleSetWithTTL_rejects:
  assumes "\<not> nonneg_integer ttl"
  shows "handleSetWithTTL c now key v ttl = (Inl (ErrorString ''invalid TTl''), c)
         \<or> (\<exists>n<0. handleSetWithTTL c now key v ttl = (Inl (CacheError (InvalidArgument n)), c))"
proof (cases "Atoi ttl")
  case None
  then show ?thesis by (simp add: handleSetWithTTL_def)
next
  case (Some n)
  then have "token_value ttl = Some n" by (rule Atoi_token_value)
  with assms have "n < 0" by (simp add: nonneg_integer_def)
  with Some show ?thesis by (simp add: handleSetWithTTL_def cache_SetWithTTL_def)
qed

subsection \<open>A malformed TTL\<close>

text \<open>
  Claim C1. A \<^verbatim>\<open>SET\<close> line of exactly four tokens whose fourth token does not write a
  non-negative integer is rejected and leaves the cache as it was. The error is the
  server's own \<^verbatim>\<open>invalid TTl\<close> when the token writes no integer at all, and the cache's
  \<open>InvalidArgument\<close> when it writes a negative integer (of 64 bits): the server hands
  every integer \<^verbatim>\<open>Atoi\<close> accepts to \<^verbatim>\<open>SetWithTTL\<close>, so that the refusal of a negative TTL
  is the cache's.
\<close>

theorem set_rejects_bad_ttl:
  assumes "length (Fields line) = 4" and "Fields line ! 0 = ''SET''"
    and "\<not> nonneg_integer (Fields line ! 3)"
  shows "(handlecommand c now line = (Inl (ErrorString ''invalid TTl''), c)
          \<or> (\<exists>n<0. handlecommand c now line = (Inl (CacheError (InvalidArgument n)), c)))
         \<and> (token_value (Fields line ! 3) = None \<longrightarrow>
              handlecommand c now line = (Inl (ErrorString ''invalid TTl''), c))
         \<and> (\<forall>n. token_value (Fields line ! 3) = Some n \<and> - (2 ^ 63) \<le> n \<and> n < 0 \<longrightarrow>
              handlecommand c now line = (Inl (CacheError (InvalidArgument n)), c))"
proof -
  from assms(1) obtain cmd key v ttl where p: "Fields line = [cmd, key, v, ttl]"
    by (cases "Fields line"; cases "tl (Fields line)"; cases "tl (tl (Fields line))";
        cases "tl (tl (tl (Fields line)))") auto
  with assms(2) have cmd: "cmd = ''SET''" by simp
  have h: "handlecommand c now line = handleSetWithTTL c now key v ttl"
    by (simp add: handlecommand_def p cmd dispatch_long)
  have ttl: "Fields line ! 3 = ttl" by (simp add: p)
  have 1: "handlecommand c now line = (Inl (ErrorString ''invalid TTl''), c)
          \<or> (\<exists>n<0. handlecommand c now line = (Inl (CacheError (InvalidArgument n)), c))"
    using handleSetWithTTL_rejects [of ttl c now key v] assms(3) by (simp add: h ttl)
  have 2: "token_value ttl = None \<longrightarrow>
              handlecommand c now line = (Inl (ErrorString ''invalid TTl''), c)"
  proof
    assume "token_value ttl = None"
    then have "Atoi ttl = None" using Atoi_token_value [of ttl] by (cases "Atoi ttl") auto
    then show "handlecommand c now line = (Inl (ErrorString ''invalid TTl''), c)"
      by (simp add: h handleSetWithTTL_def)
  qed
  have 3: "\<forall>n. token_value ttl = Some n \<and> - (2 ^ 63) \<le> n \<and> n < 0 \<longrightarrow>
              handlecommand c now line = (Inl (CacheError (InvalidArgument n)), c)"
  proof (intro allI impI)
    fix n assume a: "token_value ttl = Some n \<and> - (2 ^ 63) \<le> n \<and> n < 0"
    then have "Atoi ttl = Some n" by (intro token_value_Atoi) auto
    with a show "handlecommand c now line = (Inl (CacheError (InvalidArgument n)), c)"
      by (simp add: h handleSetWithTTL_def cache_SetWithTTL_def)
  qed
  from 1 2 3 show ?thesis by (simp add: ttl)
qed

theorem set_rejects_bad_ttl_witness:
  "handlecommand Map.empty 0 ''SET a b soon\<newline>'' = (Inl (ErrorString ''invalid TTl''), Map.empty)
   \<and> handlecommand Map.empty 0 ''SET a b -5\<newline>''
       = (Inl (CacheError (InvalidArgument (- 5))), Map.empty)"
  using set_rejects_bad_ttl [of "''SET a b soon\<newline>''" Map.empty 0]
        set_rejects_bad_ttl [of "''SET a b -5\<newline>''" Map.empty 0]
  by (simp add: Fields_SET_negative Fields_SET_soon token_value_negative token_value_soon
        nonneg_integer_def)

subsection \<open>Token counts and unknown commands\<close>

text \<open>
  Claim C3. A line of fewer than two tokens is an error; so is a \<^verbatim>\<open>SET\<close> line whose
  number of tokens is neither 3 nor 4 (with the first error when it has one token only);
  so is a line of at least two tokens whose first token is none of the four commands.
  None of these touches the cache. A line with the three tokens \<^verbatim>\<open>SET\<close>, \<open>a\<close>, \<open>b\<close>
  replies \<^verbatim>\<open>Success\<close> and leaves \<open>b\<close>, without expiry, under \<open>a\<close>.
\<close>

theorem handlecommand_protocol:
  "(length (Fields line) < 2 \<longrightarrow>
      handlecommand c now line =
        (Inl (ErrorString ''message must atleast have command and key''), c))
   \<and> (2 \<le> length (Fields line) \<and> hd (Fields line) = ''SET''
        \<and> length (Fields line) \<noteq> 3 \<and> length (Fields line) \<noteq> 4 \<longrightarrow>
      handlecommand c now line =
        (Inl (ErrorString ''SET message must atleast have key and value''), c))
   \<and> (2 \<le> length (Fields line)
        \<and> hd (Fields line) \<notin> {''SET'', ''GET'', ''DEL'', ''HAS''} \<longrightarrow>
      handlecommand c now line =
        (Inl (ErrorString (''unknown Command '' @ hd (Fields line))), c))
   \<and> (Fields line = [''SET'', a, b] \<longrightarrow>
      handlecommand c now line =
        (Inr ''Success'', c(a \<mapsto> \<lparr>val = b, expiresAt = None\<rparr>)))"
proof (intro conjI impI)
  assume "length (Fields line) < 2"
  then show "handlecommand c now line =
        (Inl (ErrorString ''message must atleast have command and key''), c)"
    by (simp add: handlecommand_def dispatch_short)
next
  assume a: "2 \<le> length (Fields line) \<and> hd (Fields line) = ''SET''
        \<and> length (Fields line) \<noteq> 3 \<and> length (Fields line) \<noteq> 4"
  then obtain cmd key rest where p: "Fields line = cmd # key # rest"
    using two_tokens by blast
  with a show "handlecommand c now line =
        (Inl (ErrorString ''SET message must atleast have key and value''), c)"
    by (simp add: handlecommand_def dispatch_long)
next
  assume a: "2 \<le> length (Fields line)
        \<and> hd (Fields line) \<notin> {''SET'', ''GET'', ''DEL'', ''HAS''}"
  then obtain cmd key rest where p: "Fields line = cmd # key # rest"
    using two_tokens by blast
  with a show "handlecommand c now line =
        (Inl (ErrorString (''unknown Command '' @ hd (Fields line))), c)"
    by (simp add: handlecommand_def dispatch_long)
next
  assume "Fields line = [''SET'', a, b]"
  then show "handlecommand c now line =
        (Inr ''Success'', c(a \<mapsto> \<lparr>val = b, expiresAt = None\<rparr>))"
    by (simp add: handlecommand_def dispatch_long handleSet_def cache_Set_def)
qed

theorem handlecommand_protocol_witness:
  "handlecommand Map.empty 0 ''PING\<newline>'' =
     (Inl (ErrorString ''message must atleast have command and key''), Map.empty)
   \<and> handlecommand Map.empty 0 ''SET a\<newline>'' =
     (Inl (ErrorString ''SET message must atleast have key and value''), Map.empty)
   \<and> handlecommand Map.empty 0 ''SET a b c d\<newline>'' =
     (Inl (ErrorString ''SET message must atleast have key and value''), Map.empty)
   \<and> handlecommand Map.empty 0 ''PUT a b\<newline>'' =
     (Inl (ErrorString ''unknown Command PUT''), Map.empty)
   \<and> handlecommand Map.empty 0 ''SET a b\<newline>'' =
     (Inr ''Success'', [''a'' \<mapsto> \<lparr>val = ''b'', expiresAt = None\<rparr>])"
  using handlecommand_protocol [of "''PING\<newline>''" Map.empty 0]
        handlecommand_protocol [of "''SET a\<newline>''" Map.empty 0]
        handlecommand_protocol [of "''SET a b c d\<newline>''" Map.empty 0]
        handlecommand_protocol [of "''PUT a b\<newline>''" Map.empty 0]
        handlecommand_protocol [of "''SET a b\<newline>''" Map.empty 0 "''a''" "''b''"]
  by (simp add: Fields_PING Fields_SET_a Fields_SET_5 Fields_PUT Fields_SET_a_b)

subsection \<open>Tokens after the key\<close>

text \<open>
  Claim C9. A \<^verbatim>\<open>GET\<close>, \<^verbatim>\<open>DEL\<close> or \<^verbatim>\<open>HAS\<close> line with tokens after the key is not rejected:
  it runs the handler on the second token alone, exactly as the line made of its first two
  tokens does.
\<close>

theorem extra_tokens_ignored:
  assumes "Fields line = cmd # key # rest" and "cmd \<in> {''GET'', ''DEL'', ''HAS''}"
    and "Fields line' = [cmd, key]"
  shows "handlecommand c now line = handlecommand c now line'
         \<and> handlecommand c now line =
             (if cmd = ''GET'' then handleGet c now key
              else if cmd = ''DEL'' then handleDel c key
              else handleHas c now key)"
  using assms by (auto simp: handlecommand_def dispatch_long)

theorem extra_tokens_ignored_witness:
  "handlecommand [''k'' \<mapsto> \<lparr>val = ''v'', expiresAt = None\<rparr>] 0 ''GET k extra\<newline>''
     = (Inr ''v'', [''k'' \<mapsto> \<lparr>val = ''v'', expiresAt = None\<rparr>])
   \<and> handlecommand [''k'' \<mapsto> \<lparr>val = ''v'', expiresAt = None\<rparr>] 0 ''GET k\<newline>''
     = (Inr ''v'', [''k'' \<mapsto> \<lparr>val = ''v'', expiresAt = None\<rparr>])"
  using extra_tokens_ignored [of "''GET k extra\<newline>''" "''GET''" "''k''" "[''extra'']"
          "''GET k\<newline>''" "[''k'' \<mapsto> \<lparr>val = ''v'', expiresAt = None\<rparr>]" 0]
  by (auto simp: Fields_GET_k_extra Fields_GET_k handleGet_def cache_Get_def expired_def)

section \<open>Properties of the event loop\<close>

subsection \<open>Auxiliary facts\<close>

lemma on_client_Continue: "\<exists>p'. on_client errtext fd r p = Continue p'"
  by (auto simp: on_client_def Let_def split: sum.splits prod.splits option.splits)

lemma on_client_clockwork:
  "sweeps (state_of (on_client errtext fd r p)) = sweeps p
   \<and> lastCronExecTime (state_of (on_client errtext fd r p)) = lastCronExecTime p"
  by (auto simp: on_client_def conn_Close_def Let_def split: sum.splits prod.splits option.splits)

lemma on_listener_clockwork:
  "sweeps (state_of (on_listener r p)) = sweeps p
   \<and> lastCronExecTime (state_of (on_listener r p)) = lastCronExecTime p"
  by (auto simp: on_listener_def Let_def split: sum.splits option.splits)

lemma serve_clockwork:
  "sweeps (state_of (serve errtext fd events p)) = sweeps p
   \<and> lastCronExecTime (state_of (serve errtext fd events p)) = lastCronExecTime p"
proof (induction events arbitrary: p)
  case Nil
  show ?case by simp
next
  case (Cons a events)
  obtain event r where a: "a = (event, r)" by (cases a)
  show ?case
  proof (cases "Fd event = fd")
    case True
    with a Cons on_listener_clockwork [of r p] show ?thesis
      by (cases "on_listener r p") auto
  next
    case False
    with a Cons on_client_clockwork [of errtext "Fd event" r p] show ?thesis
      by (cases "on_client errtext (Fd event) r p") auto
  qed
qed

lemma serve_append:
  "serve errtext fd evs1 p = Continue p1 \<Longrightarrow>
   serve errtext fd (evs1 @ evs2) p = serve errtext fd evs2 p1"
proof (induction evs1 arbitrary: p)
  case Nil
  then show ?case by simp
next
  case (Cons a evs1)
  obtain event r where a: "a = (event, r)" by (cases a)
  show ?case
  proof (cases "if Fd event = fd then on_listener r p else on_client errtext (Fd event) r p")
    case (Continue q)
    with Cons a show ?thesis by simp
  next
    case (Return e q)
    with Cons.prems a show ?thesis by simp
  qed
qed

lemma on_client_read:
  "read_result r = Inr line \<Longrightarrow>
   on_client errtext fd r p =
     (let res = handlecommand (cache p) (cache_clock r) line;
          p1 = p\<lparr>cache := snd res,
                    writes := writes p @ [(fd, payload errtext (fst res) @ [CHR 0x0A])]\<rparr>
      in case write_result r of
           Some err \<Rightarrow> Continue (p1\<lparr>open_fds := open_fds p - {fd},
                                       subscribed := subscribed p - {fd},
                                       con_clients := con_clients p - 1\<rparr>)
         | None \<Rightarrow> Continue p1)"
  by (simp add: on_client_def conn_Close_def Let_def split: prod.splits option.splits)

lemma Fields_DEL: "Fields ''DEL missingkey\<newline>'' = [''DEL'', ''missingkey'']"
  by (simp add: eval_fields)

lemma DEL_missing:
  "handlecommand Map.empty 0 ''DEL missingkey\<newline>''
     = (Inl (CacheError (NotFound ''missingkey'')), Map.empty)"
  by (simp add: handlecommand_def Fields_DEL dispatch_long handleDel_def cache_Delete_def)

lemma poll_errors_keep_running:
  "\<forall>t \<in> set ts. isl (poll_result t) \<Longrightarrow> \<exists>p'. main_loop errtext fd ts p = Running p'"
proof (induction ts arbitrary: p)
  case Nil
  show ?case by simp
next
  case (Cons t ts)
  then obtain e where "poll_result t = Inl e" by (cases "poll_result t") auto
  then have "main_loop errtext fd (t # ts) p = main_loop errtext fd ts (cron t p)"
    by (simp add: iteration_def)
  with Cons show ?case by simp
qed

subsection \<open>The periodic sweep\<close>

text \<open>
  Claim C4, amended. Every turn of the loop runs the sweep test before it polls. The
  sweep is called, once, exactly when the clock reading is strictly after
  \<open>lastCronExecTime + CronFrequency\<close> (\<^verbatim>\<open>time.Time.After\<close>), and then \<open>lastCronExecTime\<close>
  becomes the clock reading taken right after the sweep; when the reading is at or
  before that instant nothing happens. Serving the events changes neither.
\<close>

theorem sweep_when_strictly_after:
  "iteration errtext fd t p =
     (case poll_result t of Inl err \<Rightarrow> Continue (cron t p)
      | Inr events \<Rightarrow> serve errtext fd events (cron t p))
   \<and> (lastCronExecTime p + CronFrequency p < now_check t \<longrightarrow>
        sweeps (state_of (iteration errtext fd t p)) = sweeps p + 1
        \<and> cache (cron t p) = cache_DeleteExpiredKeys (cache p) (now_sweep t)
        \<and> lastCronExecTime (state_of (iteration errtext fd t p)) = now_stamp t)
   \<and> (now_check t \<le> lastCronExecTime p + CronFrequency p \<longrightarrow>
        sweeps (state_of (iteration errtext fd t p)) = sweeps p
        \<and> cron t p = p
        \<and> lastCronExecTime (state_of (iteration errtext fd t p)) = lastCronExecTime p)"
proof -
  have it: "state_of (iteration errtext fd t p) =
     (case poll_result t of Inl err \<Rightarrow> cron t p
      | Inr events \<Rightarrow> state_of (serve errtext fd events (cron t p)))"
    by (simp add: iteration_def Let_def split: sum.splits)
  have sw: "sweeps (state_of (iteration errtext fd t p)) = sweeps (cron t p)"
    using serve_clockwork [of errtext fd _ "cron t p"] by (simp add: it split: sum.splits)
  have st: "lastCronExecTime (state_of (iteration errtext fd t p)) = lastCronExecTime (cron t p)"
    using serve_clockwork [of errtext fd _ "cron t p"] by (simp add: it split: sum.splits)
  have 1: "iteration errtext fd t p =
     (case poll_result t of Inl err \<Rightarrow> Continue (cron t p)
      | Inr events \<Rightarrow> serve errtext fd events (cron t p))"
    by (simp add: iteration_def Let_def)
  have 2: "lastCronExecTime p + CronFrequency p < now_check t \<longrightarrow>
        sweeps (cron t p) = sweeps p + 1
        \<and> cache (cron t p) = cache_DeleteExpiredKeys (cache p) (now_sweep t)
        \<and> lastCronExecTime (cron t p) = now_stamp t"
    by (simp add: cron_def)
  have 3: "now_check t \<le> lastCronExecTime p + CronFrequency p \<longrightarrow> cron t p = p"
    by (simp add: cron_def)
  from 1 2 3 show ?thesis
    unfolding sw st by auto
qed

theorem sweep_when_strictly_after_witness:
  "sweeps (state_of (iteration sample_text 3 overdue fresh)) = 1
   \<and> lastCronExecTime (state_of (iteration sample_text 3 overdue fresh)) = 8
   \<and> sweeps (state_of (iteration sample_text 3 on_the_dot fresh)) = 0"
proof -
  have a: "lastCronExecTime fresh + CronFrequency fresh < now_check overdue"
    and b: "now_check on_the_dot \<le> lastCronExecTime fresh + CronFrequency fresh"
    and c: "sweeps fresh = 0" "now_stamp overdue = 8"
    by (simp_all add: overdue_def on_the_dot_def fresh_def)
  from a b show ?thesis
    using sweep_when_strictly_after [of sample_text 3 overdue fresh, THEN conjunct2]
          sweep_when_strictly_after [of sample_text 3 on_the_dot fresh, THEN conjunct2]
    by (simp add: c)
qed

text \<open>
  Claim C4 as worded asks for the sweep as soon as \<open>now \<ge> lastSweepTime + sweepInterval\<close>.
  With the last sweep at 0 and an interval of 5, a turn at 5 meets that condition and
  does not sweep.
\<close>

theorem no_sweep_on_the_dot:
  "lastCronExecTime fresh + CronFrequency fresh \<le> now_check on_the_dot
   \<and> sweeps (state_of (iteration sample_text 3 on_the_dot fresh)) = sweeps fresh
   \<and> lastCronExecTime (state_of (iteration sample_text 3 on_the_dot fresh))
       = lastCronExecTime fresh"
  by (simp add: iteration_def cron_def on_the_dot_def fresh_def)

subsection \<open>A failing poll\<close>

text \<open>
  Claim C8. When \<^verbatim>\<open>Poll\<close> fails, the turn ends after its sweep test and the loop takes
  its next turn from there. A run in which every poll fails is still in the loop
  afterwards; if \<^verbatim>\<open>Start\<close> has returned at all in such a run, it had returned before the
  loop began.
\<close>

theorem poll_error_retries:
  "(poll_result t = Inl err \<longrightarrow>
      iteration errtext fd t p = Continue (cron t p)
      \<and> main_loop errtext fd (t # ts) p = main_loop errtext fd ts (cron t p))
   \<and> ((\<forall>t \<in> set ts. isl (poll_result t)) \<longrightarrow>
        (\<exists>p'. main_loop errtext fd ts p = Running p')
        \<and> (\<forall>e q. Start errtext b ts p = Returned e q \<longrightarrow> Start errtext b [] p = Returned e q))"
proof (intro conjI impI)
  assume "poll_result t = Inl err"
  then show "iteration errtext fd t p = Continue (cron t p)"
    and "main_loop errtext fd (t # ts) p = main_loop errtext fd ts (cron t p)"
    by (simp_all add: iteration_def)
next
  assume a: "\<forall>t \<in> set ts. isl (poll_result t)"
  then show "\<exists>p'. main_loop errtext fd ts p = Running p'"
    by (rule poll_errors_keep_running)
  show "\<forall>e q. Start errtext b ts p = Returned e q \<longrightarrow> Start errtext b [] p = Returned e q"
  proof (intro allI impI)
    fix e q assume r: "Start errtext b ts p = Returned e q"
    show "Start errtext b [] p = Returned e q"
    proof (cases "socket_result b")
      case (Inl x)
      with r show ?thesis by (simp add: Start_def)
    next
      case (Inr sfd)
      obtain p' where "main_loop errtext sfd ts
           (p\<lparr>open_fds := insert sfd (open_fds p), subscribed := insert sfd (subscribed p)\<rparr>)
           = Running p'"
        using poll_errors_keep_running [OF a] by blast
      with r Inr show ?thesis
        by (auto simp: Start_def Let_def split: option.splits if_splits)
    qed
  qed
qed

theorem poll_error_retries_witness:
  "main_loop sample_text 3 [quiet, quiet] fresh = Running fresh
   \<and> Start sample_text booting [quiet, quiet] fresh
       = Running (fresh\<lparr>open_fds := {3}, subscribed := {3}\<rparr>)"
  using poll_error_retries [of quiet "Errno 4" sample_text 3 fresh "[quiet]" booting]
        poll_error_retries [of quiet "Errno 4" sample_text 3 fresh "[]" booting]
  by (simp add: quiet_def fresh_def cron_def booting_def Start_def iteration_def)

subsection \<open>Replies to failed commands\<close>

text \<open>
  Claim C5. When the dispatch of a line that was read gives an error, what is handed to
  \<^verbatim>\<open>Write\<close> on the same handle is the text of that error followed by a newline, and the
  loop goes on. Unless that write itself fails, the handle stays open and monitored and
  the connection counter is unchanged.
\<close>

theorem error_text_reply:
  assumes "read_result r = Inr line"
    and "handlecommand (cache p) (cache_clock r) line = (Inl err, c')"
  shows "\<exists>p'. on_client errtext fd r p = Continue p'
           \<and> writes p' = writes p @ [(fd, Error errtext err @ [CHR 0x0A])]
           \<and> (write_result r = None \<longrightarrow>
                open_fds p' = open_fds p \<and> subscribed p' = subscribed p
                \<and> con_clients p' = con_clients p)"
  using assms by (cases "write_result r") (simp_all add: on_client_read payload_def)

theorem error_text_reply_witness:
  "\<exists>p'. on_client sample_text 7 (calm\<lparr>read_result := Inr ''DEL missingkey\<newline>''\<rparr>)
           (fresh\<lparr>open_fds := {3, 7}, subscribed := {3, 7}, con_clients := 1\<rparr>) = Continue p'
        \<and> writes p' = [(7, ''key not found\<newline>'')]
        \<and> open_fds p' = {3, 7} \<and> subscribed p' = {3, 7} \<and> con_clients p' = 1"
  using error_text_reply [of "calm\<lparr>read_result := Inr ''DEL missingkey\<newline>''\<rparr>"
          "''DEL missingkey\<newline>''"
          "fresh\<lparr>open_fds := {3, 7}, subscribed := {3, 7}, con_clients := 1\<rparr>"
          "CacheError (NotFound ''missingkey'')" Map.empty sample_text 7]
  by (simp add: calm_def fresh_def DEL_missing)

subsection \<open>Failing reads and writes\<close>

text \<open>
  Claim C6. On an event of a client handle, a failed read closes the handle, takes one
  off the connection counter and changes nothing else (so nothing is written), and the
  remaining events are served next. After a read that succeeded, a failed write closes
  the handle and takes one off the counter, and the remaining events are served next.
  No event of a client handle makes \<^verbatim>\<open>Start\<close> return.
\<close>

theorem io_failure_closes_connection:
  assumes "Fd event \<noteq> serverFD"
  shows "(\<forall>e. read_result r = Inl e \<longrightarrow>
            on_client errtext (Fd event) r p =
              Continue (p\<lparr>open_fds := open_fds p - {Fd event},
                          subscribed := subscribed p - {Fd event},
                          con_clients := con_clients p - 1\<rparr>)
            \<and> serve errtext serverFD ((event, r) # events) p =
                serve errtext serverFD events
                  (p\<lparr>open_fds := open_fds p - {Fd event},
                     subscribed := subscribed p - {Fd event},
                     con_clients := con_clients p - 1\<rparr>))
         \<and> (\<forall>line e. read_result r = Inr line \<and> write_result r = Some e \<longrightarrow>
              (\<exists>p'. on_client errtext (Fd event) r p = Continue p'
                 \<and> open_fds p' = open_fds p - {Fd event}
                 \<and> con_clients p' = con_clients p - 1
                 \<and> serve errtext serverFD ((event, r) # events) p =
                     serve errtext serverFD events p'))
         \<and> (\<exists>p'. on_client errtext (Fd event) r p = Continue p')"
proof (intro conjI allI impI)
  fix e assume "read_result r = Inl e"
  then show rd: "on_client errtext (Fd event) r p =
              Continue (p\<lparr>open_fds := open_fds p - {Fd event},
                          subscribed := subscribed p - {Fd event},
                          con_clients := con_clients p - 1\<rparr>)"
    by (simp add: on_client_def conn_Close_def)
  with assms show "serve errtext serverFD ((event, r) # events) p =
                serve errtext serverFD events
                  (p\<lparr>open_fds := open_fds p - {Fd event},
                     subscribed := subscribed p - {Fd event},
                     con_clients := con_clients p - 1\<rparr>)"
    by simp
next
  fix line e assume "read_result r = Inr line \<and> write_result r = Some e"
  with assms show "\<exists>p'. on_client errtext (Fd event) r p = Continue p'
                 \<and> open_fds p' = open_fds p - {Fd event}
                 \<and> con_clients p' = con_clients p - 1
                 \<and> serve errtext serverFD ((event, r) # events) p =
                     serve errtext serverFD events p'"
    by (simp add: on_client_read Let_def)
next
  show "\<exists>p'. on_client errtext (Fd event) r p = Continue p'"
    by (rule on_client_Continue)
qed

theorem io_failure_closes_connection_witness:
  "serve sample_text 3 [(\<lparr>Fd = 7, Op = 0\<rparr>, calm\<lparr>read_result := Inl (Errno 11)\<rparr>)]
     (fresh\<lparr>open_fds := {3, 7}, subscribed := {3, 7}, con_clients := 1\<rparr>)
     = Continue (fresh\<lparr>open_fds := {3}, subscribed := {3}, con_clients := 0\<rparr>)
   \<and> (\<exists>p'. on_client sample_text 7 (calm\<lparr>write_result := Some (Errno 32)\<rparr>)
              (fresh\<lparr>open_fds := {3, 7}, subscribed := {3, 7}, con_clients := 1\<rparr>) = Continue p'
          \<and> open_fds p' = {3} \<and> con_clients p' = 0)"
  using io_failure_closes_connection [of "\<lparr>Fd = 7, Op = 0\<rparr>" 3
          "calm\<lparr>read_result := Inl (Errno 11)\<rparr>" sample_text
          "fresh\<lparr>open_fds := {3, 7}, subscribed := {3, 7}, con_clients := 1\<rparr>" "[]"]
        io_failure_closes_connection [of "\<lparr>Fd = 7, Op = 0\<rparr>" 3
          "calm\<lparr>write_result := Some (Errno 32)\<rparr>" sample_text
          "fresh\<lparr>open_fds := {3, 7}, subscribed := {3, 7}, con_clients := 1\<rparr>" "[]"]
  by (auto simp: calm_def fresh_def insert_Diff_if)

subsection \<open>A new connection that cannot be registered\<close>

lemma on_listener_subscribe_fails:
  "accept_result r = Inr fd \<Longrightarrow> subscribe_result r = Some err \<Longrightarrow>
   on_listener r p =
     Return err (p\<lparr>con_clients := con_clients p + 1, open_fds := insert fd (open_fds p)\<rparr>)"
  by (simp add: on_listener_def Let_def)

text \<open>On the loop alone, from any process: a refused registration ends it with that error.\<close>

lemma main_loop_registration_fails:
  assumes "poll_result t = Inr (before @ (event, r) # after)"
    and "serve errtext serverFD before (cron t p) = Continue p1"
    and "Fd event = serverFD"
    and "accept_result r = Inr fd" and "subscribe_result r = Some err"
    and "fd \<noteq> serverFD"
  shows "\<exists>p'. main_loop errtext serverFD (t # ts) p = Returned err p'
           \<and> fd \<in> open_fds p'
           \<and> con_clients p' = con_clients p1 + 1
           \<and> writes p' = writes p1 \<and> cache p' = cache p1"
proof -
  have "serve errtext serverFD ((event, r) # after) p1 =
          Return err (p1\<lparr>con_clients := con_clients p1 + 1, open_fds := insert fd (open_fds p1)\<rparr>)"
    using assms(3-5) by (simp add: on_listener_subscribe_fails)
  with assms(2) have "serve errtext serverFD (before @ (event, r) # after) (cron t p) =
          Return err (p1\<lparr>con_clients := con_clients p1 + 1, open_fds := insert fd (open_fds p1)\<rparr>)"
    by (simp add: serve_append)
  with assms(1) have "main_loop errtext serverFD (t # ts) p =
      Returned err (deferred serverFD
        (p1\<lparr>con_clients := con_clients p1 + 1, open_fds := insert fd (open_fds p1)\<rparr>))"
    by (simp add: iteration_def Let_def)
  with assms(6) show ?thesis
    by (simp add: deferred_def syscall_Close_def multiplexer_Close_def)
qed

text \<open>A run that is still in its loop goes on with the turns that follow.\<close>

lemma main_loop_append:
  "main_loop errtext fd ts1 p = Running p' \<Longrightarrow>
   main_loop errtext fd (ts1 @ ts2) p = main_loop errtext fd ts2 p'"
proof (induction ts1 arbitrary: p)
  case Nil
  then show ?case by simp
next
  case (Cons t ts1)
  show ?case
  proof (cases "iteration errtext fd t p")
    case (Continue q)
    with Cons show ?thesis by simp
  next
    case (Return e q)
    with Cons.prems show ?thesis by simp
  qed
qed

lemma Start_enters_loop:
  "socket_result b = Inr serverFD \<Longrightarrow> setnonblock_result b = None \<Longrightarrow> host_parses b \<Longrightarrow>
   bind_result b = None \<Longrightarrow> listen_result b = None \<Longrightarrow> new_result b = None \<Longrightarrow>
   subscribe_server_result b = None \<Longrightarrow>
   Start errtext b ts p =
     main_loop errtext serverFD ts
       (p\<lparr>open_fds := insert serverFD (open_fds p),
          subscribed := insert serverFD (subscribed p)\<rparr>)"
  by (simp add: Start_def)

lemma quiet_turn:
  "main_loop sample_text 3 [quiet] (fresh\<lparr>open_fds := {3}, subscribed := {3}\<rparr>)
     = Running (fresh\<lparr>open_fds := {3}, subscribed := {3}\<rparr>)"
  by (simp add: iteration_def cron_def quiet_def fresh_def)

text \<open>
  Claim C10. \<^verbatim>\<open>Start\<close> has set up its sockets and multiplexer and is in its loop after
  the turns \<open>earlier\<close>. When, in the next turn, the listening handle is served,
  \<^verbatim>\<open>Accept\<close> gives a new handle and \<^verbatim>\<open>Subscribe\<close> refuses it, \<^verbatim>\<open>Start\<close> returns that
  error, whatever would have come later; in the process it leaves, the new handle is
  still open and the connection counter is one above what it was before the accept. The
  events served earlier in the same turn are \<open>before\<close>; the deferred calls close the
  multiplexer and the listening handle only.
\<close>

theorem failed_registration_leaves_handle_open:
  assumes "socket_result b = Inr serverFD" and "setnonblock_result b = None"
    and "host_parses b" and "bind_result b = None" and "listen_result b = None"
    and "new_result b = None" and "subscribe_server_result b = None"
    and "main_loop errtext serverFD earlier
           (p0\<lparr>open_fds := insert serverFD (open_fds p0),
                subscribed := insert serverFD (subscribed p0)\<rparr>) = Running p"
    and "poll_result t = Inr (before @ (event, r) # after)"
    and "serve errtext serverFD before (cron t p) = Continue p1"
    and "Fd event = serverFD"
    and "accept_result r = Inr fd" and "subscribe_result r = Some err"
    and "fd \<noteq> serverFD"
  shows "\<exists>p'. Start errtext b (earlier @ t # later) p0 = Returned err p'
           \<and> fd \<in> open_fds p'
           \<and> con_clients p' = con_clients p1 + 1
           \<and> writes p' = writes p1 \<and> cache p' = cache p1"
proof -
  have "Start errtext b (earlier @ t # later) p0 =
          main_loop errtext serverFD (earlier @ t # later)
            (p0\<lparr>open_fds := insert serverFD (open_fds p0),
                 subscribed := insert serverFD (subscribed p0)\<rparr>)"
    using assms(1-7) by (rule Start_enters_loop)
  also have "\<dots> = main_loop errtext serverFD (t # later) p"
    using assms(8) by (rule main_loop_append)
  finally have "Start errtext b (earlier @ t # later) p0 = main_loop errtext serverFD (t # later) p" .
  moreover have "\<exists>p'. main_loop errtext serverFD (t # later) p = Returned err p'
           \<and> fd \<in> open_fds p'
           \<and> con_clients p' = con_clients p1 + 1
           \<and> writes p' = writes p1 \<and> cache p' = cache p1"
    using assms(9-14) by (rule main_loop_registration_fails)
  ultimately show ?thesis by simp
qed

theorem failed_registration_leaves_handle_open_witness:
  "\<exists>p'. Start sample_text booting
          [quiet,
           overdue\<lparr>poll_result := Inr [(\<lparr>Fd = 3, Op = 0\<rparr>, calm\<lparr>subscribe_result := Some (Errno 28)\<rparr>)]\<rparr>]
          fresh = Returned (Errno 28) p'
        \<and> 7 \<in> open_fds p' \<and> con_clients p' = 1"
  using failed_registration_leaves_handle_open
    [of booting 3 sample_text "[quiet]" fresh "fresh\<lparr>open_fds := {3}, subscribed := {3}\<rparr>"
        "overdue\<lparr>poll_result := Inr [(\<lparr>Fd = 3, Op = 0\<rparr>, calm\<lparr>subscribe_result := Some (Errno 28)\<rparr>)]\<rparr>"
        "[]" "\<lparr>Fd = 3, Op = 0\<rparr>" "calm\<lparr>subscribe_result := Some (Errno 28)\<rparr>" "[]"
        "cron (overdue\<lparr>poll_result := Inr [(\<lparr>Fd = 3, Op = 0\<rparr>, calm\<lparr>subscribe_result := Some (Errno 28)\<rparr>)]\<rparr>)
           (fresh\<lparr>open_fds := {3}, subscribed := {3}\<rparr>)"
        7 "Errno 28" "[]"]
        quiet_turn
  by (auto simp: booting_def overdue_def calm_def fresh_def cron_def)

subsection \<open>Failures of the multiplexer during start-up\<close>

lemma registration_failure_returns:
  "socket_result b = Inr serverFD \<Longrightarrow> setnonblock_result b = None \<Longrightarrow> host_parses b \<Longrightarrow>
   bind_result b = None \<Longrightarrow> listen_result b = None \<Longrightarrow> new_result b = None \<Longrightarrow>
   subscribe_server_result b = Some err \<Longrightarrow>
   Start errtext b ts p = Returned err (deferred serverFD (p\<lparr>open_fds := insert serverFD (open_fds p)\<rparr>))"
  by (simp add: Start_def)

text \<open>
  Claim C2, where the source departs from it. When \<^verbatim>\<open>iomultiplexer.New\<close> fails after a
  set-up that went well so far, \<^verbatim>\<open>Start\<close> does not return the error: line 77 calls
  \<^verbatim>\<open>log.Fatal\<close>, which ends the process with the listening handle still open, whatever
  would have come next. (A refused registration is returned, as the lemma above and the
  theorem on new connections show.)
\<close>

theorem multiplexer_creation_failure_is_fatal:
  assumes "socket_result b = Inr serverFD" and "setnonblock_result b = None"
    and "host_parses b" and "bind_result b = None" and "listen_result b = None"
    and "new_result b = Some err"
  shows "Start errtext b ts p = Fatal err (p\<lparr>open_fds := insert serverFD (open_fds p)\<rparr>)
         \<and> (\<forall>e q. Start errtext b ts p \<noteq> Returned e q)"
  using assms by (simp add: Start_def)

theorem multiplexer_creation_failure_is_fatal_witness:
  "Start sample_text (booting\<lparr>new_result := Some (Errno 24)\<rparr>) [] fresh
     = Fatal (Errno 24) (fresh\<lparr>open_fds := {3}\<rparr>)"
  using multiplexer_creation_failure_is_fatal
          [of "booting\<lparr>new_result := Some (Errno 24)\<rparr>" 3 "Errno 24" sample_text "[]" fresh]
  by (simp add: booting_def fresh_def)

section \<open>Replies\<close>

lemma handleSet_reply: "handleSet c key v = (Inr resp, c') \<Longrightarrow> resp = ''Success''"
  by (auto simp: handleSet_def cache_Set_def)

lemma handleSetWithTTL_reply:
  "handleSetWithTTL c now key v ttl = (Inr resp, c') \<Longrightarrow> resp = ''Success''"
  by (auto simp: handleSetWithTTL_def cache_SetWithTTL_def split: option.splits if_splits)

lemma handleDel_reply: "handleDel c key = (Inr resp, c') \<Longrightarrow> resp = ''Success''"
  by (auto simp: handleDel_def cache_Delete_def split: option.splits)

lemma handleGet_reply:
  "handleGet c now key = (Inr resp, c') \<Longrightarrow>
   \<exists>e. c key = Some e \<and> \<not> expired now e \<and> resp = val e"
  by (auto simp: handleGet_def cache_Get_def split: option.splits if_splits)

lemma handleHas_reply:
  "fst (handleHas c now key) =
     Inr (if \<exists>e. c key = Some e \<and> \<not> expired now e then ''Yes'' else ''No'')"
  by (auto simp: handleHas_def cache_Has_def split: option.splits)

lemma Fields_HAS: "Fields ''HAS missingkey\<newline>'' = [''HAS'', ''missingkey'']"
  by (simp add: eval_fields)

lemma GET_k: "handlecommand [''k'' \<mapsto> \<lparr>val = ''v'', expiresAt = None\<rparr>] 0 ''GET k\<newline>''
     = (Inr ''v'', [''k'' \<mapsto> \<lparr>val = ''v'', expiresAt = None\<rparr>])"
  by (simp add: handlecommand_def Fields_GET_k dispatch_long handleGet_def cache_Get_def expired_def)

text \<open>
  Claim C7. A command that is dispatched with success replies \<^verbatim>\<open>Success\<close> when it is a
  \<^verbatim>\<open>SET\<close> (of three or of four tokens) or a \<^verbatim>\<open>DEL\<close>, the value stored under the key,
  which is present and not expired, when it is a \<^verbatim>\<open>GET\<close>, and \<^verbatim>\<open>Yes\<close> or \<^verbatim>\<open>No\<close> when it
  is a \<^verbatim>\<open>HAS\<close>; no other command succeeds. A \<^verbatim>\<open>HAS\<close> with its key never fails: it
  replies \<^verbatim>\<open>Yes\<close> for a key that is present and not expired and \<^verbatim>\<open>No\<close> otherwise. What
  is handed to \<^verbatim>\<open>Write\<close> for a line that was read is the payload with one newline byte
  appended.
\<close>

theorem reply_payloads:
  "(handlecommand c now line = (Inr resp, c') \<longrightarrow>
      (hd (Fields line) = ''SET'' \<longrightarrow> resp = ''Success'')
      \<and> (hd (Fields line) = ''DEL'' \<longrightarrow> resp = ''Success'')
      \<and> (hd (Fields line) = ''GET'' \<longrightarrow>
           (\<exists>e. c (Fields line ! 1) = Some e \<and> \<not> expired now e \<and> resp = val e))
      \<and> (hd (Fields line) = ''HAS'' \<longrightarrow> resp = ''Yes'' \<or> resp = ''No'')
      \<and> hd (Fields line) \<in> {''SET'', ''DEL'', ''GET'', ''HAS''})
   \<and> (2 \<le> length (Fields line) \<and> hd (Fields line) = ''HAS'' \<longrightarrow>
        fst (handlecommand c now line) =
          Inr (if \<exists>e. c (Fields line ! 1) = Some e \<and> \<not> expired now e then ''Yes'' else ''No''))
   \<and> (read_result r = Inr line \<and> cache p = c \<and> cache_clock r = now \<longrightarrow>
        (\<exists>p'. on_client errtext fd r p = Continue p'
           \<and> writes p' =
               writes p @ [(fd, payload errtext (fst (handlecommand c now line)) @ [CHR 0x0A])])
        \<and> (handlecommand c now line = (Inr resp, c') \<longrightarrow>
             (\<exists>p'. on_client errtext fd r p = Continue p'
                \<and> writes p' = writes p @ [(fd, resp @ [CHR 0x0A])])))"
proof (intro conjI impI)
  assume ok: "handlecommand c now line = (Inr resp, c')"
  have long: "2 \<le> length (Fields line)"
  proof (rule ccontr)
    assume "\<not> 2 \<le> length (Fields line)"
    then have "handlecommand c now line =
        (Inl (ErrorString ''message must atleast have command and key''), c)"
      by (simp add: handlecommand_def dispatch_short)
    with ok show False by simp
  qed
  then obtain cmd key rest where p: "Fields line = cmd # key # rest"
    using two_tokens by blast
  from ok have d: "dispatch c now (cmd # key # rest) = (Inr resp, c')"
    by (simp add: handlecommand_def p)
  show "hd (Fields line) = ''SET'' \<Longrightarrow> resp = ''Success''"
    using d handleSet_reply handleSetWithTTL_reply
    by (auto simp: p dispatch_long split: if_splits)
  show "hd (Fields line) = ''DEL'' \<Longrightarrow> resp = ''Success''"
    using d handleDel_reply by (auto simp: p dispatch_long split: if_splits)
  show "hd (Fields line) = ''GET'' \<Longrightarrow>
          \<exists>e. c (Fields line ! 1) = Some e \<and> \<not> expired now e \<and> resp = val e"
    using d handleGet_reply [of c now key resp c'] by (auto simp: p dispatch_long split: if_splits)
  show "hd (Fields line) = ''HAS'' \<Longrightarrow> resp = ''Yes'' \<or> resp = ''No''"
    using d handleHas_reply [of c now key] by (auto simp: p dispatch_long split: if_splits)
  show "hd (Fields line) \<in> {''SET'', ''DEL'', ''GET'', ''HAS''}"
    using d by (auto simp: p dispatch_long split: if_splits)
next
  assume "2 \<le> length (Fields line) \<and> hd (Fields line) = ''HAS''"
  then obtain key rest where p: "Fields line = ''HAS'' # key # rest"
    using two_tokens [of "Fields line"] by auto
  show "fst (handlecommand c now line) =
          Inr (if \<exists>e. c (Fields line ! 1) = Some e \<and> \<not> expired now e then ''Yes'' else ''No'')"
    using handleHas_reply [of c now key] by (simp add: handlecommand_def p dispatch_long)
next
  assume a: "read_result r = Inr line \<and> cache p = c \<and> cache_clock r = now"
  then show "\<exists>p'. on_client errtext fd r p = Continue p'
           \<and> writes p' =
               writes p @ [(fd, payload errtext (fst (handlecommand c now line)) @ [CHR 0x0A])]"
    by (cases "write_result r") (simp_all add: on_client_read Let_def)
next
  assume a: "read_result r = Inr line \<and> cache p = c \<and> cache_clock r = now"
    and ok: "handlecommand c now line = (Inr resp, c')"
  then show "\<exists>p'. on_client errtext fd r p = Continue p'
                \<and> writes p' = writes p @ [(fd, resp @ [CHR 0x0A])]"
    by (cases "write_result r") (simp_all add: on_client_read Let_def payload_def)
qed

theorem reply_payloads_witness:
  "fst (handlecommand Map.empty 0 ''HAS missingkey\<newline>'') = Inr ''No''
   \<and> (\<exists>e. [''k'' \<mapsto> \<lparr>val = ''v'', expiresAt = None\<rparr>] ''k'' = Some e \<and> \<not> expired 0 e
          \<and> ''v'' = val e)
   \<and> (\<exists>p'. on_client sample_text 7 calm (fresh\<lparr>cache := [''k'' \<mapsto> \<lparr>val = ''v'', expiresAt = None\<rparr>]\<rparr>)
              = Continue p'
          \<and> writes p' = [(7, ''v\<newline>'')])"
  using reply_payloads [of Map.empty 0 "''HAS missingkey\<newline>''", THEN conjunct2, THEN conjunct1]
        reply_payloads [of "[''k'' \<mapsto> \<lparr>val = ''v'', expiresAt = None\<rparr>]" 0 "''GET k\<newline>''" "''v''"
            "[''k'' \<mapsto> \<lparr>val = ''v'', expiresAt = None\<rparr>]" calm
            "fresh\<lparr>cache := [''k'' \<mapsto> \<lparr>val = ''v'', expiresAt = None\<rparr>]\<rparr>" sample_text 7]
  by (simp add: Fields_HAS Fields_GET_k GET_k calm_def fresh_def)

end
